theory Spec2Isabelle
  imports Complex_Main "HOL-Library.Multiset"
begin

section \<open>Python values obtained from \<open>json.loads\<close>\<close>

text \<open>
  The application only ever inspects values that \<open>json.loads\<close> produced: \<open>None\<close>,
  booleans, integers, floats, strings, lists and dictionaries with string keys. A
  dictionary is an association list in insertion order (the order \<open>.items()\<close> iterates
  in); \<open>json.loads\<close> never produces a dictionary with a repeated key. A float is kept
  as the exact rational it denotes, or one of the three special values.
\<close>

datatype pyfloat = Fin rat | PInf | NInf | NaN

datatype json =
    JNull
  | JBool bool
  | JInt int
  | JFloat pyfloat
  | JStr string
  | JArr "json list"
  | JObj "(string \<times> json) list"

text \<open>The exceptions the modelled code can meet; \<open>External\<close> carries \<open>str(e)\<close> of an
  exception raised by a library or a remote service.\<close>

datatype py_error =
    TypeError
  | AttributeError
  | KeyError
  | IndexError
  | ValueError
  | OverflowError
  | JSONDecodeError
  | RecursionError
  | External string

fun starts_with :: "string \<Rightarrow> string \<Rightarrow> bool" where
  "starts_with s [] = True"
| "starts_with [] (p # ps) = False"
| "starts_with (c # cs) (p # ps) = (c = p \<and> starts_with cs ps)"

fun is_substring :: "string \<Rightarrow> string \<Rightarrow> bool" where
  "is_substring p [] = (p = [])"
| "is_substring p (c # cs) = (starts_with (c # cs) p \<or> is_substring p cs)"

text \<open>\<open>k in x\<close> for a string \<open>k\<close>: key membership on a dictionary, element membership
  on a list, substring test on a string, \<open>TypeError\<close> on everything else.\<close>

fun py_in :: "string \<Rightarrow> json \<Rightarrow> py_error + bool" where
  "py_in k (JObj d) = Inr (k \<in> set (map fst d))"
| "py_in k (JArr xs) = Inr (JStr k \<in> set xs)"
| "py_in k (JStr s) = Inr (is_substring k s)"
| "py_in k _ = Inl TypeError"

text \<open>\<open>x.get(k, default)\<close>: only dictionaries have the method.\<close>

fun py_get :: "json \<Rightarrow> string \<Rightarrow> json \<Rightarrow> py_error + json" where
  "py_get (JObj d) k dflt = Inr (case map_of d k of Some v \<Rightarrow> v | None \<Rightarrow> dflt)"
| "py_get _ k dflt = Inl AttributeError"

text \<open>\<open>x[k]\<close> for a string \<open>k\<close>.\<close>

fun py_getitem :: "json \<Rightarrow> string \<Rightarrow> py_error + json" where
  "py_getitem (JObj d) k = (case map_of d k of Some v \<Rightarrow> Inr v | None \<Rightarrow> Inl KeyError)"
| "py_getitem _ k = Inl TypeError"

text \<open>Truth value of an object, as \<open>if x\<close> and \<open>not x\<close> test it.\<close>

fun py_truthy :: "json \<Rightarrow> bool" where
  "py_truthy JNull = False"
| "py_truthy (JBool b) = b"
| "py_truthy (JInt i) = (i \<noteq> 0)"
| "py_truthy (JFloat f) = (f \<noteq> Fin 0)"
| "py_truthy (JStr s) = (s \<noteq> [])"
| "py_truthy (JArr xs) = (xs \<noteq> [])"
| "py_truthy (JObj d) = (d \<noteq> [])"


section \<open>Accident workflow: document classification\<close>

text \<open>\<open>identify_document_type(doc_data)\<close> is only called on dictionaries
  (\<open>parse_and_format_json\<close> guards the call with \<open>isinstance(value, dict)\<close>), so the
  model takes the dictionary itself.\<close>

definition has_key :: "(string \<times> json) list \<Rightarrow> string \<Rightarrow> bool" where
  "has_key d k = (k \<in> set (map fst d))"

definition identify_document_type :: "(string \<times> json) list \<Rightarrow> string" where
  "identify_document_type doc_data =
     (if has_key doc_data ''report_header'' \<and> has_key doc_data ''first_party''
        then ''Police Report (Form 1)''
      else if has_key doc_data ''violator_information'' \<and> has_key doc_data ''violation_description''
        then ''Acceptance of Reconciliation (Form 2)''
      else if has_key doc_data ''involved_vehicles'' \<and> has_key doc_data ''authorizing_officer''
        then ''Traffic Accident Notification (Form 3)''
      else if has_key doc_data ''issuing_company'' \<and> has_key doc_data ''policy_summary''
        then ''Insurance Policy (Form 4)''
      else if has_key doc_data ''vehicle_and_driver'' \<and> has_key doc_data ''damage_description''
        then ''Hit and Run Report (Form 5)''
      else ''Unknown Document Type'')"

text \<open>The five signatures, in the order the \<open>if\<close>/\<open>elif\<close> chain tests them.\<close>

definition signatures :: "(string \<times> string \<times> string) list" where
  "signatures =
     [(''report_header'', ''first_party'', ''Police Report (Form 1)''),
      (''violator_information'', ''violation_description'', ''Acceptance of Reconciliation (Form 2)''),
      (''involved_vehicles'', ''authorizing_officer'', ''Traffic Accident Notification (Form 3)''),
      (''issuing_company'', ''policy_summary'', ''Insurance Policy (Form 4)''),
      (''vehicle_and_driver'', ''damage_description'', ''Hit and Run Report (Form 5)'')]"

definition matches :: "(string \<times> json) list \<Rightarrow> string \<times> string \<times> string \<Rightarrow> bool" where
  "matches d sig = (case sig of (k1, k2, label) \<Rightarrow> has_key d k1 \<and> has_key d k2)"

text \<open>The classification as the specification words it: the label of the first signature
  whose two keys are both present, \<open>Unknown Document Type\<close> when there is none.\<close>

definition classify_spec :: "(string \<times> json) list \<Rightarrow> string" where
  "classify_spec d =
     (case filter (matches d) signatures of
        [] \<Rightarrow> ''Unknown Document Type''
      | sig # _ \<Rightarrow> snd (snd sig))"

section \<open>Python floats\<close>

text \<open>
  A Python float is an IEEE 754 binary64 number. \<open>round_double q\<close> is the double nearest
  to the rational \<open>q\<close>, ties going to the even significand: 53 significant bits for a
  normal number, multiples of \<open>2 ^ -1074\<close> below \<open>2 ^ -1022\<close>, an infinity when the
  rounded magnitude reaches \<open>2 ^ 1024\<close>. The sign of a zero is not kept: none of the
  modelled operations can observe it.
\<close>

fun ilog2 :: "nat \<Rightarrow> nat" where
  "ilog2 n = (if n < 2 then 0 else Suc (ilog2 (n div 2)))"

declare ilog2.simps [simp del]

definition pow2 :: "int \<Rightarrow> rat" where
  "pow2 e = (if 0 \<le> e then 2 ^ nat e else 1 / 2 ^ nat (- e))"

text \<open>\<open>floor_log2 a\<close> is the integer \<open>e\<close> with \<open>2 ^ e \<le> a < 2 ^ (e + 1)\<close>, for \<open>a > 0\<close>.\<close>

definition floor_log2 :: "rat \<Rightarrow> int" where
  "floor_log2 a =
     (if 1 \<le> a then int (ilog2 (nat \<lfloor>a\<rfloor>))
      else - int (ilog2 (nat (\<lceil>1 / a\<rceil> - 1))) - 1)"

definition round_half_even :: "rat \<Rightarrow> int" where
  "round_half_even x =
     (let f = \<lfloor>x\<rfloor>; d = x - of_int f
      in if d < 1 / 2 then f
         else if 1 / 2 < d then f + 1
         else if even f then f else f + 1)"

definition round_double :: "rat \<Rightarrow> pyfloat" where
  "round_double q =
     (if q = 0 then Fin 0
      else
        let a = \<bar>q\<bar>;
            e = max (floor_log2 a) (- 1022);
            u = pow2 (e - 52);
            r = of_int (round_half_even (a / u)) * u
        in if 2 ^ 1024 \<le> r then (if 0 < q then PInf else NInf)
           else Fin (if 0 < q then r else - r))"

text \<open>Conversion of an operand of \<open>/\<close> or \<open>*\<close> to a float: an integer too large for a
  double raises \<open>OverflowError\<close>, \<open>True\<close> and \<open>False\<close> count as 1 and 0, and every
  other kind of value is not a number.\<close>

definition int_to_float :: "int \<Rightarrow> py_error + pyfloat" where
  "int_to_float n =
     (case round_double (of_int n) of
        Fin q \<Rightarrow> Inr (Fin q)
      | _ \<Rightarrow> Inl OverflowError)"

fun to_float :: "json \<Rightarrow> py_error + pyfloat" where
  "to_float (JInt n) = int_to_float n"
| "to_float (JBool b) = Inr (Fin (if b then 1 else 0))"
| "to_float (JFloat f) = Inr f"
| "to_float _ = Inl TypeError"

text \<open>\<open>x / 1000.0\<close> on floats.\<close>

fun float_div_1000 :: "pyfloat \<Rightarrow> pyfloat" where
  "float_div_1000 (Fin q) = round_double (q / 1000)"
| "float_div_1000 f = f"

text \<open>\<open>x * y\<close> on floats.\<close>

fun float_sign :: "pyfloat \<Rightarrow> int" where
  "float_sign (Fin q) = (if 0 < q then 1 else if q < 0 then - 1 else 0)"
| "float_sign PInf = 1"
| "float_sign NInf = - 1"
| "float_sign NaN = 0"

fun float_mul :: "pyfloat \<Rightarrow> pyfloat \<Rightarrow> pyfloat" where
  "float_mul NaN y = NaN"
| "float_mul x NaN = NaN"
| "float_mul (Fin a) (Fin b) = round_double (a * b)"
| "float_mul x y =
     (let s = float_sign x * float_sign y
      in if s = 0 then NaN else if 0 < s then PInf else NInf)"

text \<open>\<open>int(x)\<close> on a float truncates towards zero; it raises \<open>OverflowError\<close> on an
  infinity and \<open>ValueError\<close> on a NaN.\<close>

fun float_to_int :: "pyfloat \<Rightarrow> py_error + int" where
  "float_to_int (Fin q) = Inr (if 0 \<le> q then \<lfloor>q\<rfloor> else \<lceil>q\<rceil>)"
| "float_to_int PInf = Inl OverflowError"
| "float_to_int NInf = Inl OverflowError"
| "float_to_int NaN = Inl ValueError"

section \<open>Images and the damage-box overlay\<close>

text \<open>An image as far as the code looks at it: its \<open>size\<close> and which picture it is.\<close>

record image =
  img_width :: nat
  img_height :: nat
  img_label :: string

text \<open>Running a computation that may raise, then the next one on its result.\<close>

definition and_then :: "'e + 'a \<Rightarrow> ('a \<Rightarrow> 'e + 'b) \<Rightarrow> 'e + 'b" where
  "and_then r f = (case r of Inl e \<Rightarrow> Inl e | Inr x \<Rightarrow> f x)"

text \<open>\<open>int((c / 1000.0) * extent)\<close>, the expression of lines 560 to 563, with the
  image's width or height as \<open>extent\<close>.\<close>

definition to_pixel :: "json \<Rightarrow> nat \<Rightarrow> py_error + int" where
  "to_pixel c extent =
     and_then (to_float c) (\<lambda>cf.
     and_then (int_to_float (int extent)) (\<lambda>df.
       float_to_int (float_mul (float_div_1000 cf) df)))"

text \<open>Lines 556 to 563 of \<open>draw_bounding_box_on_image\<close>: unpacking the box raises
  \<open>ValueError\<close> unless it has exactly four elements.\<close>

definition box_pixel_coords :: "image \<Rightarrow> json list \<Rightarrow> py_error + (int \<times> int \<times> int \<times> int)" where
  "box_pixel_coords img box_coords =
     (case box_coords of
        [ymin, xmin, ymax, xmax] \<Rightarrow>
          and_then (to_pixel xmin (img_width img)) (\<lambda>x1.
          and_then (to_pixel ymin (img_height img)) (\<lambda>y1.
          and_then (to_pixel xmax (img_width img)) (\<lambda>x2.
          and_then (to_pixel ymax (img_height img)) (\<lambda>y2.
            Inr (x1, y1, x2, y2)))))
      | _ \<Rightarrow> Inl ValueError)"

section \<open>The outside world\<close>

text \<open>
  Everything the application gets from a library or a remote service is a field of
  \<open>world\<close>: a call either returns a value or raises. The theorems hold for every world.
  \<^item> \<open>image_open path\<close>: \<open>Image.open(path)\<close>.
  \<^item> \<open>pdf_open path\<close>: \<open>pdfplumber.open(path)\<close> and its \<open>pages\<close>, each page with the
    outcome of \<open>page.to_image(resolution=300).original\<close>.
  \<^item> \<open>zip_extract_walk path\<close>: \<open>ZipFile(path).extractall(temp_dir)\<close>, then the paths of
    the files \<open>os.walk(temp_dir)\<close> yields, in that order.
  \<^item> \<open>save_png img\<close>: the bytes \<open>img.save(buffer, format='PNG')\<close> writes.
  \<^item> \<open>generate_content parts prompt\<close>: the text of the reply of the remote model.
  \<^item> \<open>json_loads text\<close>: \<open>json.loads(text)\<close>, the parsed value or the exception it
    raises. That is \<open>JSONDecodeError\<close> for a text that is not JSON, but not only: brackets
    nested deeper than the interpreter's recursion limit raise \<open>RecursionError\<close>, and an
    integer literal with more digits than the interpreter converts raises a plain
    \<open>ValueError\<close>.
  \<^item> \<open>json_dumps value\<close>: \<open>json.dumps(value, indent=2, ensure_ascii=False)\<close>.
  \<^item> \<open>pil_draw_box img (x1, y1, x2, y2)\<close>: the copy of the image with the red rectangle
    and its label drawn by \<open>ImageDraw\<close>.
\<close>

datatype prompt = MASTER_PROMPT | WINDSHIELD_CLAIM_PROMPT

record world =
  image_open :: "string \<Rightarrow> py_error + image"
  pdf_open :: "string \<Rightarrow> py_error + (py_error + image) list"
  zip_extract_walk :: "string \<Rightarrow> py_error + string list"
  save_png :: "image \<Rightarrow> py_error + string"
  generate_content :: "string list \<Rightarrow> prompt \<Rightarrow> py_error + string"
  json_loads :: "string \<Rightarrow> py_error + json"
  json_dumps :: "json \<Rightarrow> string"
  pil_draw_box :: "image \<Rightarrow> int \<times> int \<times> int \<times> int \<Rightarrow> py_error + image"

text \<open>What a submission does to the outside: each request sent to the remote model and
  each record posted to the logging webhook, in the order they happen.\<close>

datatype event =
    ModelCall "string list" prompt
  | WebhookPost string string json

text \<open>\<open>str(e)\<close>. The wording Python gives its own exceptions is not modelled: the name
  of the class stands for it.\<close>

fun exc_str :: "py_error \<Rightarrow> string" where
  "exc_str TypeError = ''TypeError''"
| "exc_str AttributeError = ''AttributeError''"
| "exc_str KeyError = ''KeyError''"
| "exc_str IndexError = ''IndexError''"
| "exc_str ValueError = ''ValueError''"
| "exc_str OverflowError = ''OverflowError''"
| "exc_str JSONDecodeError = ''JSONDecodeError''"
| "exc_str RecursionError = ''RecursionError''"
| "exc_str (External msg) = msg"

definition draw_bounding_box_on_image :: "world \<Rightarrow> image \<Rightarrow> json list \<Rightarrow> image" where
  "draw_bounding_box_on_image w img box_coords =
     (case box_pixel_coords img box_coords of
        Inl e \<Rightarrow> img
      | Inr rect \<Rightarrow>
          (case pil_draw_box w img rect of
             Inl e \<Rightarrow> img
           | Inr img_with_box \<Rightarrow> img_with_box))"

section \<open>Intake: uploaded files to page images\<close>

text \<open>\<open>Path(file_path).suffix.lower()\<close>: the suffix is the part of the last path
  component from its last dot on, and is empty when that dot is the first or the last
  character of the component or when there is none.\<close>

definition path_name :: "string \<Rightarrow> string" where
  "path_name p = rev (takeWhile (\<lambda>c. c \<noteq> CHR ''/'') (rev p))"

definition path_suffix :: "string \<Rightarrow> string" where
  "path_suffix p =
     (let name = path_name p;
          after = rev (takeWhile (\<lambda>c. c \<noteq> CHR ''.'') (rev name))
      in if CHR ''.'' \<in> set name \<and> after \<noteq> [] \<and> length after + 1 < length name
         then CHR ''.'' # after else [])"

text \<open>\<open>str.lower\<close> on the characters that matter for an extension: the 26 capital
  letters become small, every other character stays.\<close>

definition lower_char :: "char \<Rightarrow> char" where
  "lower_char c =
     (case map_of (zip ''ABCDEFGHIJKLMNOPQRSTUVWXYZ'' ''abcdefghijklmnopqrstuvwxyz'') c of
        Some l \<Rightarrow> l
      | None \<Rightarrow> c)"

definition lower :: "string \<Rightarrow> string" where
  "lower s = map lower_char s"

definition supported_image_formats :: "string list" where
  "supported_image_formats = [''.png'', ''.jpg'', ''.jpeg'', ''.bmp'', ''.tiff'']"

definition supported_document_formats :: "string list" where
  "supported_document_formats = [''.pdf'']"

text \<open>The loop of \<open>convert_pdf_to_images\<close>: the first page that fails to render ends it.\<close>

fun pdf_pages_loop :: "(py_error + image) list \<Rightarrow> image list \<Rightarrow> py_error + image list" where
  "pdf_pages_loop [] images = Inr images"
| "pdf_pages_loop (page # pages) images =
     (case page of
        Inl e \<Rightarrow> Inl e
      | Inr pil_image \<Rightarrow> pdf_pages_loop pages (images @ [pil_image]))"

definition convert_pdf_to_images :: "world \<Rightarrow> string \<Rightarrow> py_error + image list" where
  "convert_pdf_to_images w pdf_path =
     (case and_then (pdf_open w pdf_path) (\<lambda>pages. pdf_pages_loop pages []) of
        Inl e \<Rightarrow> Inl (External (''Failed to convert PDF to images: '' @ exc_str e))
      | Inr images \<Rightarrow> Inr images)"

text \<open>The body of the two file loops (lines 409 to 426 and 445 to 460 are the same
  code): what one path adds to \<open>images\<close>.\<close>

definition add_file :: "world \<Rightarrow> string \<Rightarrow> image list \<Rightarrow> image list" where
  "add_file w file_path images =
     (let file_ext = lower (path_suffix file_path)
      in if file_ext \<in> set supported_image_formats then
           (case image_open w file_path of
              Inr img \<Rightarrow> images @ [img]
            | Inl e \<Rightarrow> images)
         else if file_ext \<in> set supported_document_formats then
           (case convert_pdf_to_images w file_path of
              Inr pdf_images \<Rightarrow> images @ pdf_images
            | Inl e \<Rightarrow> images)
         else images)"

text \<open>An uploaded file is known by its path (\<open>file.name\<close>). The upload component hands
  over nothing, one file or a list whose entries may be \<open>None\<close>.\<close>

datatype uploaded_file = UploadedFile (name: string)

datatype upload = NoFiles | OneFile uploaded_file | FileList "uploaded_file option list"

fun upload_truthy :: "upload \<Rightarrow> bool" where
  "upload_truthy NoFiles = False"
| "upload_truthy (OneFile f) = True"
| "upload_truthy (FileList fs) = (fs \<noteq> [])"

fun uploaded_files_loop :: "world \<Rightarrow> uploaded_file option list \<Rightarrow> image list \<Rightarrow> image list" where
  "uploaded_files_loop w [] images = images"
| "uploaded_files_loop w (None # files) images = uploaded_files_loop w files images"
| "uploaded_files_loop w (Some file # files) images =
     uploaded_files_loop w files (add_file w (name file) images)"

definition process_uploaded_files :: "world \<Rightarrow> upload \<Rightarrow> image list" where
  "process_uploaded_files w files =
     (if \<not> upload_truthy files then []
      else
        (case files of
           OneFile f \<Rightarrow> uploaded_files_loop w [Some f] []
         | FileList fs \<Rightarrow> uploaded_files_loop w fs []
         | NoFiles \<Rightarrow> []))"

fun walk_loop :: "world \<Rightarrow> string list \<Rightarrow> image list \<Rightarrow> image list" where
  "walk_loop w [] images = images"
| "walk_loop w (file_path # files) images = walk_loop w files (add_file w file_path images)"

definition process_zip_file :: "world \<Rightarrow> uploaded_file option \<Rightarrow> image list" where
  "process_zip_file w zip_file =
     (case zip_file of
        None \<Rightarrow> []
      | Some z \<Rightarrow>
          (case zip_extract_walk w (name z) of
             Inl e \<Rightarrow> []
           | Inr paths \<Rightarrow> walk_loop w paths []))"

text \<open>Lines 844 to 854 and 891 to 901, the same in both workflows: the loose files first,
  then the archive.\<close>

definition collect_all_images :: "world \<Rightarrow> upload \<Rightarrow> uploaded_file option \<Rightarrow> image list" where
  "collect_all_images w individual_files zip_file =
     (let all_images = [];
          all_images = (if upload_truthy individual_files
                        then all_images @ process_uploaded_files w individual_files
                        else all_images);
          all_images = (if zip_file \<noteq> None
                        then all_images @ process_zip_file w zip_file
                        else all_images)
      in all_images)"

section \<open>The request to the remote model\<close>

fun images_to_gemini_parts :: "world \<Rightarrow> image list \<Rightarrow> string list \<Rightarrow> py_error + string list" where
  "images_to_gemini_parts w [] parts = Inr parts"
| "images_to_gemini_parts w (img # images) parts =
     (case save_png w img of
        Inl e \<Rightarrow> Inl e
      | Inr img_bytes \<Rightarrow> images_to_gemini_parts w images (parts @ [img_bytes]))"

text \<open>The result is the returned text and the requests that were sent.\<close>

definition process_documents_with_gemini ::
    "world \<Rightarrow> image list \<Rightarrow> string \<Rightarrow> string \<times> event list" where
  "process_documents_with_gemini w images flow_type =
     (if images = [] then (''No images to process'', [])
      else
        (case images_to_gemini_parts w images [] of
           Inl e \<Rightarrow> (''Error processing with Gemini: '' @ exc_str e, [])
         | Inr parts \<Rightarrow>
             (let prompt = (if flow_type = ''windshield'' then WINDSHIELD_CLAIM_PROMPT
                            else MASTER_PROMPT)
              in case generate_content w parts prompt of
                   Inl e \<Rightarrow> (''Error processing with Gemini: '' @ exc_str e,
                             [ModelCall parts prompt])
                 | Inr text \<Rightarrow> (text, [ModelCall parts prompt]))))"

text \<open>\<open>send_webhook_log\<close> posts one record and swallows every failure. The user name is
  that of the request, \<open>unknown\<close> without one.\<close>

definition send_webhook_log :: "string \<Rightarrow> string \<Rightarrow> json \<Rightarrow> event list" where
  "send_webhook_log flow_type username result_data =
     [WebhookPost flow_type username result_data]"

definition request_username :: "string option \<Rightarrow> string" where
  "request_username request = (case request of Some u \<Rightarrow> u | None \<Rightarrow> ''unknown'')"

section \<open>Accident workflow\<close>

definition process_files_accident ::
    "world \<Rightarrow> upload \<Rightarrow> uploaded_file option \<Rightarrow> string option
      \<Rightarrow> (string \<times> image list option \<times> nat) \<times> event list" where
  "process_files_accident w individual_files zip_file request =
     (let all_images = collect_all_images w individual_files zip_file
      in if all_images = [] then ((''No valid images found to process'', None, 0), [])
         else
           (case process_documents_with_gemini w all_images ''accident'' of
              (result, calls) \<Rightarrow>
                (let username = request_username request;
                     posts = (case json_loads w result of
                                Inr parsed_result \<Rightarrow>
                                  send_webhook_log ''accident'' username parsed_result
                              | Inl e \<Rightarrow>
                                  send_webhook_log ''accident'' username
                                    (JObj [(''raw_result'', JStr result)]))
                 in ((result, Some all_images, length all_images), calls @ posts))))"

section \<open>Windshield workflow: displays\<close>

text \<open>
  A display is either a literal text or one of the HTML templates, kept as the name of
  the template with the data it is filled with: \<open>ChecklistDisplay\<close> for
  \<open>create_windshield_checklist_display\<close>, \<open>ValidationDisplay\<close> for
  \<open>create_validation_display\<close> (both catch every exception themselves and always
  return a text) and \<open>Tile label current_index total section\<close> for the tile of
  \<open>create_extraction_tiles\<close>.
\<close>

datatype html =
    Plain string
  | ChecklistDisplay json
  | ValidationDisplay json
  | Tile string int nat json

text \<open>The labels are those of the source without their leading pictograph.\<close>

definition section_mapping :: "(string \<times> string) list" where
  "section_mapping =
     [(''civilId'', ''Civil ID''),
      (''driversLicense'', ''Driver's License''),
      (''vehicleRegistration'', ''Vehicle Registration''),
      (''repairOrder'', ''Repair Order''),
      (''photographicEvidence'', ''Photographic Evidence'')]"

text \<open>The loop of lines 654 to 657, with its two lists.\<close>

fun sections_loop ::
    "json \<Rightarrow> (string \<times> string) list \<Rightarrow> json list \<Rightarrow> string list
      \<Rightarrow> py_error + (json list \<times> string list)" where
  "sections_loop extracted_data [] sections section_names = Inr (sections, section_names)"
| "sections_loop extracted_data ((key, label) # rest) sections section_names =
     (case py_in key extracted_data of
        Inl e \<Rightarrow> Inl e
      | Inr False \<Rightarrow> sections_loop extracted_data rest sections section_names
      | Inr True \<Rightarrow>
          (case py_getitem extracted_data key of
             Inl e \<Rightarrow> Inl e
           | Inr v \<Rightarrow>
               sections_loop extracted_data rest (sections @ [v]) (section_names @ [label])))"

definition create_extraction_tiles :: "json \<Rightarrow> int \<Rightarrow> html \<times> int \<times> nat" where
  "create_extraction_tiles extracted_data current_index =
     (case sections_loop extracted_data section_mapping [] [] of
        Inl e \<Rightarrow> (Plain (''<p>Error creating extraction tiles: '' @ exc_str e @ ''</p>''), 0, 0)
      | Inr (sections, section_names) \<Rightarrow>
          if sections = [] then (Plain ''<p>No extraction data available</p>'', 0, 0)
          else
            (let current_index = max 0 (min current_index (int (length sections) - 1));
                 current_section = sections ! nat current_index;
                 current_name = section_names ! nat current_index
             in (Tile current_name current_index (length sections) current_section,
                 current_index, length sections)))"

section \<open>Windshield workflow: the damage location\<close>

text \<open>\<open>image_index < len(all_images)\<close>: numbers compare, anything else raises.\<close>

fun float_less_int :: "pyfloat \<Rightarrow> int \<Rightarrow> bool" where
  "float_less_int (Fin q) n = (q < of_int n)"
| "float_less_int NInf n = True"
| "float_less_int PInf n = False"
| "float_less_int NaN n = False"

fun py_less_int :: "json \<Rightarrow> int \<Rightarrow> py_error + bool" where
  "py_less_int (JInt i) n = Inr (i < n)"
| "py_less_int (JBool b) n = Inr ((if b then 1 else 0) < n)"
| "py_less_int (JFloat f) n = Inr (float_less_int f n)"
| "py_less_int _ n = Inl TypeError"

text \<open>\<open>xs[i]\<close> on a list: a negative integer counts from the end, an integer out of
  range raises \<open>IndexError\<close>, \<open>True\<close> and \<open>False\<close> are the integers 1 and 0, and
  any other index raises \<open>TypeError\<close>.\<close>

definition list_index_int :: "'a list \<Rightarrow> int \<Rightarrow> py_error + 'a" where
  "list_index_int xs i =
     (if 0 \<le> i \<and> i < int (length xs) then Inr (xs ! nat i)
      else if i < 0 \<and> - int (length xs) \<le> i then Inr (xs ! nat (int (length xs) + i))
      else Inl IndexError)"

fun py_list_index :: "'a list \<Rightarrow> json \<Rightarrow> py_error + 'a" where
  "py_list_index xs (JInt i) = list_index_int xs i"
| "py_list_index xs (JBool b) = list_index_int xs (if b then 1 else 0)"
| "py_list_index xs _ = Inl TypeError"

text \<open>Lines 934 to 937, the body of the inner \<open>try\<close>: the result is the new value of
  \<open>damage_image\<close>, or the exception that the \<open>except\<close> of line 938 catches.\<close>

definition damage_overlay :: "world \<Rightarrow> image list \<Rightarrow> json \<Rightarrow> py_error + image option" where
  "damage_overlay w all_images damage_location =
     and_then (py_getitem damage_location ''imageIndex'') (\<lambda>image_index.
     and_then (py_getitem damage_location ''box_2d'') (\<lambda>box_coords.
       (case box_coords of
          JArr box \<Rightarrow>
            if length box = 4 then
              and_then (py_less_int image_index (int (length all_images))) (\<lambda>in_range.
                if in_range then
                  and_then (py_list_index all_images image_index) (\<lambda>img.
                    Inr (Some (draw_bounding_box_on_image w img box)))
                else Inr None)
            else Inr None
        | _ \<Rightarrow> Inr None)))"

text \<open>Lines 928 to 939. An exception of the lookups or of the \<open>in\<close> tests of line 932 is
  not caught here (\<open>Inl\<close>); one inside the inner \<open>try\<close> leaves \<open>damage_image\<close> at
  \<open>None\<close>.\<close>

definition damage_image_of :: "world \<Rightarrow> image list \<Rightarrow> json \<Rightarrow> py_error + image option" where
  "damage_image_of w all_images extracted_data =
     and_then (py_get extracted_data ''photographicEvidence'' (JObj [])) (\<lambda>photographic_evidence.
     and_then (py_get photographic_evidence ''damageLocation'' (JObj [])) (\<lambda>damage_location.
       if \<not> py_truthy damage_location then Inr None
       else
         and_then (py_in ''imageIndex'' damage_location) (\<lambda>has_index.
           if \<not> has_index then Inr None
           else
             and_then (py_in ''box_2d'' damage_location) (\<lambda>has_box.
               if \<not> has_box then Inr None
               else
                 (case damage_overlay w all_images damage_location of
                    Inl e \<Rightarrow> Inr None
                  | Inr damage_image \<Rightarrow> Inr damage_image)))))"

section \<open>Windshield workflow: the submission\<close>

record windshield_result =
  checklist_html :: html
  extraction_html :: html
  validation_html :: html
  complete_json :: string
  image_gallery :: "image list option"
  damage_image :: "image option"
  image_count :: nat
  raw_result :: string
  current_idx :: int
  total_sections :: nat

text \<open>The tuple \<open>error_msg, "", "", error_msg, None, None, 0, "", 0, 0\<close>.\<close>

definition error_result :: "string \<Rightarrow> windshield_result" where
  "error_result error_msg =
     \<lparr>checklist_html = Plain error_msg, extraction_html = Plain [], validation_html = Plain [],
      complete_json = error_msg, image_gallery = None, damage_image = None, image_count = 0,
      raw_result = [], current_idx = 0, total_sections = 0\<rparr>"

text \<open>Lines 917 to 920: the three sections of the parsed reply.\<close>

definition extract_sections :: "json \<Rightarrow> py_error + (json \<times> json \<times> json)" where
  "extract_sections parsed_result =
     and_then (py_get parsed_result ''documentChecklist'' (JObj [])) (\<lambda>document_checklist.
     and_then (py_get parsed_result ''extractedData'' (JObj [])) (\<lambda>extracted_data.
     and_then (py_get parsed_result ''consistencyAnalysis'' (JObj [])) (\<lambda>consistency_analysis.
       Inr (document_checklist, extracted_data, consistency_analysis))))"

text \<open>Lines 917 to 960, after the reply has been parsed; \<open>Inl\<close> is an exception on its
  way to the handler of line 962.\<close>

definition render_windshield ::
    "world \<Rightarrow> image list \<Rightarrow> string \<Rightarrow> json \<Rightarrow> string option
      \<Rightarrow> py_error + (windshield_result \<times> event list)" where
  "render_windshield w all_images result parsed_result request =
     and_then (extract_sections parsed_result) (\<lambda>(document_checklist, extracted_data, consistency_analysis).
       (case create_extraction_tiles extracted_data 0 of
          (tiles_html, tiles_idx, tiles_total) \<Rightarrow>
            and_then (damage_image_of w all_images extracted_data) (\<lambda>damage.
              Inr (\<lparr>checklist_html = ChecklistDisplay document_checklist,
                    extraction_html = tiles_html,
                    validation_html = ValidationDisplay consistency_analysis,
                    complete_json = json_dumps w parsed_result,
                    image_gallery = Some all_images,
                    damage_image = damage,
                    image_count = length all_images,
                    raw_result = result,
                    current_idx = tiles_idx,
                    total_sections = tiles_total\<rparr>,
                   send_webhook_log ''windshield'' (request_username request) parsed_result))))"

definition process_files_windshield ::
    "world \<Rightarrow> upload \<Rightarrow> uploaded_file option \<Rightarrow> string option
      \<Rightarrow> windshield_result \<times> event list" where
  "process_files_windshield w individual_files zip_file request =
     (let all_images = collect_all_images w individual_files zip_file
      in if all_images = [] then (error_result ''No valid images found to process'', [])
         else
           (case process_documents_with_gemini w all_images ''windshield'' of
              (result, calls) \<Rightarrow>
                (case json_loads w result of
                   Inl e \<Rightarrow> (error_result (''Error parsing result: '' @ result), calls)
                 | Inr parsed_result \<Rightarrow>
                     (case render_windshield w all_images result parsed_result request of
                        Inl e \<Rightarrow> (error_result (''Error: '' @ exc_str e), calls)
                      | Inr (res, posts) \<Rightarrow> (res, calls @ posts)))))"

section \<open>Windshield workflow: navigating the tiles\<close>

text \<open>The comprehension of line 978: how many of the five keys are \<open>in\<close> the data.\<close>

fun count_sections :: "json \<Rightarrow> string list \<Rightarrow> py_error + nat" where
  "count_sections extracted_data [] = Inr 0"
| "count_sections extracted_data (k # ks) =
     (case py_in k extracted_data of
        Inl e \<Rightarrow> Inl e
      | Inr present \<Rightarrow>
          (case count_sections extracted_data ks of
             Inl e \<Rightarrow> Inl e
           | Inr n \<Rightarrow> Inr (if present then Suc n else n)))"

definition section_keys :: "string list" where
  "section_keys =
     [''civilId'', ''driversLicense'', ''vehicleRegistration'', ''repairOrder'',
      ''photographicEvidence'']"

definition navigate_extraction_tiles ::
    "world \<Rightarrow> string \<Rightarrow> string \<Rightarrow> int \<Rightarrow> html \<times> int \<times> nat" where
  "navigate_extraction_tiles w extracted_data_json direction current_index =
     (if extracted_data_json = [] then (Plain ''<p>No data available</p>'', 0, 0)
      else
        (case
           (case json_loads w extracted_data_json of
              Inl e \<Rightarrow> Inl e
            | Inr parsed_result \<Rightarrow>
                and_then (py_get parsed_result ''extractedData'' (JObj [])) (\<lambda>extracted_data.
                and_then (count_sections extracted_data section_keys) (\<lambda>section_count.
                  (let new_index =
                         (if direction = ''prev'' then max 0 (current_index - 1)
                          else if direction = ''next''
                            then min (int section_count - 1) (current_index + 1)
                          else current_index)
                   in Inr (create_extraction_tiles extracted_data new_index)))))
         of
           Inl e \<Rightarrow> (Plain (''<p>Error navigating: '' @ exc_str e @ ''</p>''), current_index, 0)
         | Inr res \<Rightarrow> res))"

section \<open>Accident workflow: the reply as documents\<close>

text \<open>\<open>create_document_summary\<close> catches every exception itself and always returns a
  text; it is kept as the template with the document and the type it is filled with.\<close>

datatype summary = DocumentSummary "(string \<times> json) list" string

record document =
  doc_key :: string
  doc_type :: string
  doc_content :: string
  doc_summary :: summary

text \<open>The loop of lines 1067 to 1075.\<close>

fun documents_loop :: "world \<Rightarrow> (string \<times> json) list \<Rightarrow> document list \<Rightarrow> document list" where
  "documents_loop w [] documents = documents"
| "documents_loop w ((key, v) # rest) documents =
     (case v of
        JObj d \<Rightarrow>
          (let doc_type = identify_document_type d
           in documents_loop w rest
                (documents @
                 [\<lparr>doc_key = key, doc_type = doc_type, doc_content = json_dumps w v,
                   doc_summary = DocumentSummary d doc_type\<rparr>]))
      | _ \<Rightarrow> documents_loop w rest documents)"

text \<open>The handler of line 1079 is \<open>except json.JSONDecodeError\<close>: it returns the raw
  text for that exception only, and any other exception of \<open>json.loads\<close> leaves the
  function (\<open>Inl\<close>). The handlers of lines 871 and 913 (bare \<open>except\<close>) and of line 992
  (\<open>except Exception\<close>) catch them all.\<close>

definition parse_and_format_json ::
    "world \<Rightarrow> string \<Rightarrow> py_error + (string \<times> document list \<times> string)" where
  "parse_and_format_json w json_result =
     (if json_result = [] \<or> starts_with json_result ''Error'' then Inr (json_result, [], [])
      else
        (case json_loads w json_result of
           Inl e \<Rightarrow> if e = JSONDecodeError then Inr (json_result, [], []) else Inl e
         | Inr parsed_json \<Rightarrow>
             (let formatted_complete = json_dumps w parsed_json
              in case parsed_json of
                   JObj d \<Rightarrow>
                     (case map_of d ''validation_summary'' of
                        Some vs \<Rightarrow>
                          Inr (formatted_complete,
                               documents_loop w
                                 (filter (\<lambda>(k, v). k \<noteq> ''validation_summary'') d) [],
                               json_dumps w vs)
                      | None \<Rightarrow> Inr (formatted_complete, documents_loop w d [], []))
                 | _ \<Rightarrow> Inr (formatted_complete, [], []))))"

section \<open>The behaviour in the specification's words\<close>

text \<open>
  The definitions of this section are not taken from the code: they say what the
  specification expects, and the theorems compare the code with them.
\<close>


text \<open>An input item is supported when its extension is that of an image or of a PDF, and
  readable when the library opens it (every page of it, for a PDF). \<open>item_pages\<close> is
  \<open>None\<close> for an item that is unsupported or unreadable and otherwise its pages in
  document order.\<close>

definition is_image_path :: "string \<Rightarrow> bool" where
  "is_image_path p = (lower (path_suffix p) \<in> set supported_image_formats)"

definition is_pdf_path :: "string \<Rightarrow> bool" where
  "is_pdf_path p = (lower (path_suffix p) \<in> set supported_document_formats)"

definition pdf_page_images :: "world \<Rightarrow> string \<Rightarrow> image list option" where
  "pdf_page_images w p =
     (case pdf_open w p of
        Inl e \<Rightarrow> None
      | Inr pages \<Rightarrow> if \<forall>pg \<in> set pages. \<not> isl pg then Some (map projr pages) else None)"

definition item_pages :: "world \<Rightarrow> string \<Rightarrow> image list option" where
  "item_pages w p =
     (if is_image_path p then (case image_open w p of Inr img \<Rightarrow> Some [img] | Inl e \<Rightarrow> None)
      else if is_pdf_path p then pdf_page_images w p
      else None)"

definition usable :: "world \<Rightarrow> string \<Rightarrow> bool" where
  "usable w p = (item_pages w p \<noteq> None)"

definition pages_of_items :: "world \<Rightarrow> string list \<Rightarrow> image list" where
  "pages_of_items w ps = concat (map (\<lambda>p. the (item_pages w p)) (filter (usable w) ps))"

text \<open>The loose files in submission order, and the files of the archive in the order of
  the walk (none when the archive cannot be extracted).\<close>

fun loose_paths :: "upload \<Rightarrow> string list" where
  "loose_paths NoFiles = []"
| "loose_paths (OneFile f) = [name f]"
| "loose_paths (FileList fs) = List.map_filter (map_option name) fs"

definition archive_paths :: "world \<Rightarrow> uploaded_file option \<Rightarrow> string list" where
  "archive_paths w zip_file =
     (case zip_file of
        None \<Rightarrow> []
      | Some z \<Rightarrow> (case zip_extract_walk w (name z) of Inl e \<Rightarrow> [] | Inr paths \<Rightarrow> paths))"

definition normalized_sequence :: "world \<Rightarrow> upload \<Rightarrow> uploaded_file option \<Rightarrow> image list" where
  "normalized_sequence w individual_files zip_file =
     pages_of_items w (loose_paths individual_files) @ pages_of_items w (archive_paths w zip_file)"

text \<open>The number of known sections present in the extracted data, and the nearest index
  in \<open>[0, n - 1]\<close>.\<close>

definition section_count :: "(string \<times> json) list \<Rightarrow> nat" where
  "section_count extracted = length (filter (has_key extracted) section_keys)"

definition clamp_index :: "nat \<Rightarrow> int \<Rightarrow> int" where
  "clamp_index n i = (if i < 0 then 0 else if int n - 1 < i then int n - 1 else i)"


section \<open>A world for the examples\<close>

text \<open>Every image opens except \<open>corrupt.png\<close>, every PDF has two pages except
  \<open>corrupt.pdf\<close>, every archive holds the same three files except \<open>corrupt.zip\<close>, the
  remote model answers \<open>reply\<close>, \<open>json.loads\<close> gives \<open>parsed\<close> (a value or an exception)
  on \<open>reply\<close>, and no other text is JSON.\<close>

definition example_world :: "string \<Rightarrow> py_error + json \<Rightarrow> world" where
  "example_world reply parsed =
     \<lparr>image_open = (\<lambda>p. if p = ''corrupt.png'' then Inl (External ''cannot identify image file'')
                         else Inr \<lparr>img_width = 2000, img_height = 1000, img_label = p\<rparr>),
      pdf_open = (\<lambda>p. if p = ''corrupt.pdf'' then Inl (External ''No /Root object'')
                       else Inr [Inr \<lparr>img_width = 2480, img_height = 3508, img_label = p @ ''#1''\<rparr>,
                                 Inr \<lparr>img_width = 2480, img_height = 3508, img_label = p @ ''#2''\<rparr>]),
      zip_extract_walk = (\<lambda>p. if p = ''corrupt.zip'' then Inl (External ''File is not a zip file'')
                               else Inr [''/tmp/x/c.jpg'', ''/tmp/x/notes.txt'', ''/tmp/x/sub/d.PDF'']),
      save_png = (\<lambda>img. Inr (img_label img)),
      generate_content = (\<lambda>parts prompt. Inr reply),
      json_loads = (\<lambda>s. if s = reply then parsed else Inl JSONDecodeError),
      json_dumps = (\<lambda>j. reply),
      pil_draw_box = (\<lambda>img rect. Inr (img\<lparr>img_label := img_label img @ '' with box''\<rparr>))\<rparr>"

section \<open>Auxiliary facts\<close>

lemma has_key_mset: "mset d' = mset d \<Longrightarrow> has_key d' k = has_key d k"
  unfolding has_key_def by (metis mset_map set_mset_mset)

lemma has_key_map_of: "has_key d k \<longleftrightarrow> map_of d k \<noteq> None"
  unfolding has_key_def by (simp add: map_of_eq_None_iff)

lemma identify_classify: "identify_document_type d = classify_spec d"
  unfolding identify_document_type_def classify_spec_def signatures_def matches_def
  by simp





subsection \<open>The intake loops\<close>

lemma pdf_pages_loop_ok:
  "\<forall>pg \<in> set pages. \<not> isl pg \<Longrightarrow> pdf_pages_loop pages images = Inr (images @ map projr pages)"
  by (induction pages arbitrary: images) (auto split: sum.splits)

lemma pdf_pages_loop_fail:
  "\<exists>pg \<in> set pages. isl pg \<Longrightarrow> \<exists>e. pdf_pages_loop pages images = Inl e"
  by (induction pages arbitrary: images) (auto split: sum.splits)

lemma convert_pdf_to_images_pages:
  "convert_pdf_to_images w p =
     (case pdf_page_images w p of
        Some images \<Rightarrow> Inr images
      | None \<Rightarrow> Inl (projl (convert_pdf_to_images w p)))"
proof (cases "pdf_open w p")
  case (Inl e)
  then show ?thesis
    by (simp add: convert_pdf_to_images_def pdf_page_images_def and_then_def)
next
  case (Inr pages)
  show ?thesis
  proof (cases "\<forall>pg \<in> set pages. \<not> isl pg")
    case True
    then show ?thesis using Inr
      by (simp add: convert_pdf_to_images_def pdf_page_images_def and_then_def pdf_pages_loop_ok)
  next
    case False
    then obtain e where "pdf_pages_loop pages [] = Inl e"
      using pdf_pages_loop_fail [of pages "[]"] by blast
    then show ?thesis using Inr False
      by (simp add: convert_pdf_to_images_def pdf_page_images_def and_then_def)
  qed
qed

lemma add_file_pages:
  "add_file w p images = images @ (case item_pages w p of Some pages \<Rightarrow> pages | None \<Rightarrow> [])"
proof -
  have "(case convert_pdf_to_images w p of Inr pdf_images \<Rightarrow> images @ pdf_images | Inl e \<Rightarrow> images)
        = images @ (case pdf_page_images w p of Some pages \<Rightarrow> pages | None \<Rightarrow> [])"
    by (subst convert_pdf_to_images_pages) (simp split: option.splits)
  then show ?thesis
    by (simp add: add_file_def item_pages_def is_image_path_def is_pdf_path_def Let_def
        split: sum.splits)
qed

lemma pages_of_items_Cons:
  "pages_of_items w (p # ps) =
     (case item_pages w p of Some pages \<Rightarrow> pages | None \<Rightarrow> []) @ pages_of_items w ps"
  by (simp add: pages_of_items_def usable_def split: option.splits)

lemma walk_loop_pages: "walk_loop w ps images = images @ pages_of_items w ps"
  by (induction ps arbitrary: images)
     (simp_all add: add_file_pages pages_of_items_Cons, simp add: pages_of_items_def)

lemma uploaded_files_loop_pages:
  "uploaded_files_loop w fs images = images @ pages_of_items w (List.map_filter (map_option name) fs)"
proof (induction fs arbitrary: images)
  case Nil
  then show ?case by (simp add: pages_of_items_def)
next
  case (Cons f fs)
  then show ?case
    by (cases f) (simp_all add: add_file_pages pages_of_items_Cons)
qed

lemma process_uploaded_files_pages:
  "process_uploaded_files w files = pages_of_items w (loose_paths files)"
proof (cases files)
  case NoFiles
  then show ?thesis by (simp add: process_uploaded_files_def pages_of_items_def)
next
  case (OneFile f)
  then show ?thesis
    by (simp add: process_uploaded_files_def add_file_pages pages_of_items_Cons)
       (simp add: pages_of_items_def)
next
  case (FileList fs)
  then show ?thesis
    by (cases "fs = []")
       (simp_all add: process_uploaded_files_def uploaded_files_loop_pages pages_of_items_def)
qed

lemma process_zip_file_pages:
  "process_zip_file w zip_file = pages_of_items w (archive_paths w zip_file)"
  by (simp add: process_zip_file_def archive_paths_def walk_loop_pages pages_of_items_def
      split: option.splits sum.splits)

lemma collect_all_images_pages:
  "collect_all_images w individual_files zip_file = normalized_sequence w individual_files zip_file"
proof -
  have a: "\<not> upload_truthy individual_files \<Longrightarrow> pages_of_items w (loose_paths individual_files) = []"
    by (cases individual_files) (simp_all add: pages_of_items_def)
  have b: "zip_file = None \<Longrightarrow> pages_of_items w (archive_paths w zip_file) = []"
    by (simp add: archive_paths_def pages_of_items_def)
  show ?thesis
    using a b
    by (simp add: collect_all_images_def normalized_sequence_def process_uploaded_files_pages
        process_zip_file_pages Let_def)
qed

subsection \<open>The loops over the sections and the documents\<close>


lemma sections_loop_obj:
  "\<exists>vs ls. sections_loop (JObj d) m sections section_names = Inr (sections @ vs, section_names @ ls)
       \<and> length vs = length (filter (has_key d) (map fst m))
       \<and> length ls = length (filter (has_key d) (map fst m))"
proof (induction m arbitrary: sections section_names)
  case Nil
  then show ?case by simp
next
  case (Cons kl m)
  obtain k l where kl: "kl = (k, l)" by (cases kl)
  show ?case
  proof (cases "has_key d k")
    case False
    then show ?thesis unfolding kl using Cons.IH [of sections section_names]
      by (simp add: has_key_def)
  next
    case True
    then obtain v where v: "map_of d k = Some v" by (auto simp: has_key_map_of)
    from Cons.IH [of "sections @ [v]" "section_names @ [l]"]
    obtain vs ls where
      "sections_loop (JObj d) m (sections @ [v]) (section_names @ [l])
         = Inr ((sections @ [v]) @ vs, (section_names @ [l]) @ ls)"
      "length vs = length (filter (has_key d) (map fst m))"
      "length ls = length (filter (has_key d) (map fst m))" by blast
    then have "sections_loop (JObj d) ((k, l) # m) sections section_names
                 = Inr (sections @ (v # vs), section_names @ (l # ls))
               \<and> length (v # vs) = length (filter (has_key d) (map fst ((k, l) # m)))
               \<and> length (l # ls) = length (filter (has_key d) (map fst ((k, l) # m)))"
      using True v by (simp add: has_key_def)
    then show ?thesis unfolding kl by blast
  qed
qed

lemma count_sections_obj:
  "count_sections (JObj d) ks = Inr (length (filter (has_key d) ks))"
  by (induction ks) (simp_all add: has_key_def)

lemma create_extraction_tiles_obj:
  assumes "0 < section_count d"
  shows "snd (create_extraction_tiles (JObj d) i) = (clamp_index (section_count d) i, section_count d)"
proof -
  have keys: "map fst section_mapping = section_keys"
    by (simp add: section_mapping_def section_keys_def)
  obtain vs ls where
    loop: "sections_loop (JObj d) section_mapping [] [] = Inr (vs, ls)"
    and len: "length vs = section_count d"
    using sections_loop_obj [of d section_mapping "[]" "[]"]
    unfolding keys section_count_def by auto
  have "vs \<noteq> []" using len assms by auto
  then show ?thesis
    using len assms by (auto simp: create_extraction_tiles_def loop Let_def clamp_index_def)
qed

subsection \<open>The index of the damaged image\<close>

text \<open>What the inner \<open>try\<close> does with an integer index and a box of four elements: only
  an index at or above the number of images is stopped by the guard.\<close>

lemma damage_overlay_int_index:
  assumes "length box = 4"
  shows "damage_overlay w all_images (JObj [(''imageIndex'', JInt i), (''box_2d'', JArr box)]) =
     (if int (length all_images) \<le> i then Inr None
      else if 0 \<le> i then Inr (Some (draw_bounding_box_on_image w (all_images ! nat i) box))
      else if - int (length all_images) \<le> i
        then Inr (Some (draw_bounding_box_on_image w
                          (all_images ! nat (int (length all_images) + i)) box))
      else Inl IndexError)"
  using assms
  by (simp add: damage_overlay_def and_then_def list_index_int_def)

subsection \<open>Rounding to a double\<close>

lemma pow2_powi: "pow2 e = 2 powi e"
  by (simp add: pow2_def power_int_def field_simps)

lemma pow2_pos: "0 < pow2 e"
  by (simp add: pow2_powi)

lemma pow2_add: "pow2 (a + b) = pow2 a * pow2 b"
  by (simp add: pow2_powi power_int_add)

lemma pow2_one: "pow2 1 = 2"
  by (simp add: pow2_def)

lemma pow2_zero: "pow2 0 = 1"
  by (simp add: pow2_def)

lemma pow2_Suc: "pow2 (e + 1) = 2 * pow2 e"
  by (simp add: pow2_add pow2_one)

lemma pow2_nat: "pow2 (int k) = 2 ^ k"
  by (simp add: pow2_def)

lemma pow2_neg_nat: "pow2 (- int k) = 1 / 2 ^ k"
  by (simp add: pow2_def)

lemma pow2_mono: "a \<le> b \<Longrightarrow> pow2 a \<le> pow2 b"
  by (simp add: pow2_powi power_int_increasing)

lemma pow2_strict_mono: "a < b \<Longrightarrow> pow2 a < pow2 b"
  by (simp add: pow2_powi power_int_strict_increasing)

lemma pow2_less_iff: "pow2 a < pow2 b \<longleftrightarrow> a < b"
  using pow2_strict_mono [of a b] pow2_mono [of b a] by (auto simp: not_less [symmetric])

lemma pow2_le_iff: "pow2 a \<le> pow2 b \<longleftrightarrow> a \<le> b"
  using pow2_strict_mono [of b a] pow2_mono [of a b] by (auto simp: not_le [symmetric])

lemma ilog2_bounds: "0 < n \<Longrightarrow> 2 ^ ilog2 n \<le> n \<and> n < 2 ^ Suc (ilog2 n)"
proof (induction n rule: ilog2.induct)
  case (1 n)
  show ?case
  proof (cases "n < 2")
    case True
    then have "n = 1" using 1(2) by simp
    then show ?thesis by (simp add: ilog2.simps)
  next
    case False
    then have "0 < n div 2" by simp
    with 1(1) False have ih: "2 ^ ilog2 (n div 2) \<le> n div 2" "n div 2 < 2 ^ Suc (ilog2 (n div 2))"
      by simp_all
    have eq: "ilog2 n = Suc (ilog2 (n div 2))" using False by (simp add: ilog2.simps)
    have "2 * 2 ^ ilog2 (n div 2) \<le> n" using ih(1) by linarith
    moreover have "n < 2 * 2 ^ Suc (ilog2 (n div 2))" using ih(2) by linarith
    ultimately show ?thesis unfolding eq by simp
  qed
qed

lemma ilog2_unique:
  assumes "2 ^ k \<le> n" "n < 2 ^ Suc k"
  shows "ilog2 n = k"
proof -
  have "0 < n" using assms(1) by (metis zero_less_numeral zero_less_power less_le_trans)
  from ilog2_bounds [OF this] have b: "2 ^ ilog2 n \<le> n" "n < 2 ^ Suc (ilog2 n)" by simp_all
  have "(2::nat) ^ k < 2 ^ Suc (ilog2 n)" using assms(1) b(2) by linarith
  then have "k < Suc (ilog2 n)" by (simp only: power_strict_increasing_iff one_less_numeral_iff semiring_norm)
  moreover have "(2::nat) ^ ilog2 n < 2 ^ Suc k" using assms(2) b(1) by linarith
  then have "ilog2 n < Suc k" by (simp only: power_strict_increasing_iff one_less_numeral_iff semiring_norm)
  ultimately show ?thesis by simp
qed


lemma floor_log2_unique:
  assumes "pow2 e \<le> a" "a < pow2 (e + 1)"
  shows "floor_log2 a = e"
proof (cases "0 \<le> e")
  case True
  define k where "k = nat e"
  have e: "e = int k" using True by (simp add: k_def)
  have p: "pow2 e = 2 ^ k" "pow2 (e + 1) = 2 ^ Suc k"
    using pow2_nat [of k] pow2_nat [of "Suc k"] by (simp_all add: e add.commute)
  have one: "1 \<le> a"
    using assms(1) pow2_mono [OF True] by (simp add: pow2_zero)
  then have fl: "0 \<le> \<lfloor>a\<rfloor>" by simp
  have "(2::int) ^ k \<le> \<lfloor>a\<rfloor>"
    using assms(1) unfolding p by (simp add: le_floor_iff)
  then have lo: "2 ^ k \<le> nat \<lfloor>a\<rfloor>"
    using fl by (simp add: le_nat_iff)
  have "\<lfloor>a\<rfloor> < (2::int) ^ Suc k"
    using assms(2) unfolding p by (simp add: floor_less_iff)
  then have hi: "nat \<lfloor>a\<rfloor> < 2 ^ Suc k"
    using fl by (simp add: nat_less_iff)
  show ?thesis
    using one ilog2_unique [OF lo hi] by (simp add: floor_log2_def e)
next
  case False
  define k where "k = nat (- e) - 1"
  have e: "e = - int (Suc k)" using False by (simp add: k_def)
  have p: "pow2 e = 1 / 2 ^ Suc k" "pow2 (e + 1) = 1 / 2 ^ k"
    using pow2_neg_nat [of "Suc k"] pow2_neg_nat [of k] by (simp_all add: e)
  have pos: "0 < a" using assms(1) pow2_pos [of e] by linarith
  have "pow2 (e + 1) \<le> pow2 0" using False by (intro pow2_mono) simp
  then have lt1: "a < 1" using assms(2) by (simp add: pow2_zero)
  have b1: "1 / a \<le> 2 ^ Suc k"
  proof -
    have "1 \<le> a * 2 ^ Suc k" using assms(1) unfolding p by (simp add: field_simps)
    then show ?thesis using pos by (simp add: field_simps)
  qed
  have b2: "2 ^ k < 1 / a"
  proof -
    have "a * 2 ^ k < 1" using assms(2) unfolding p by (simp add: field_simps)
    then show ?thesis using pos by (simp add: field_simps)
  qed
  have c1: "\<lceil>1 / a\<rceil> \<le> (2::int) ^ Suc k"
    using b1 by (simp add: ceiling_le_iff)
  have c2: "(2::int) ^ k < \<lceil>1 / a\<rceil>"
    using b2 by (simp add: less_ceiling_iff)
  have "(0::int) < 2 ^ k" by simp
  then have nn: "0 \<le> \<lceil>1 / a\<rceil> - 1"
    using c2 by linarith
  have lo: "2 ^ k \<le> nat (\<lceil>1 / a\<rceil> - 1)"
    using c2 nn by (simp add: le_nat_iff)
  have hi: "nat (\<lceil>1 / a\<rceil> - 1) < 2 ^ Suc k"
    using c1 nn by (simp add: nat_less_iff)
  show ?thesis
    using lt1 ilog2_unique [OF lo hi] by (simp add: floor_log2_def e)
qed

lemma floor_log2_bounds:
  assumes "0 < a"
  shows "pow2 (floor_log2 a) \<le> a \<and> a < pow2 (floor_log2 a + 1)"
proof (cases "1 \<le> a")
  case True
  define n where "n = nat \<lfloor>a\<rfloor>"
  have fl: "1 \<le> \<lfloor>a\<rfloor>" using True by simp
  then have n: "0 < n" "int n = \<lfloor>a\<rfloor>" by (simp_all add: n_def)
  have fe: "floor_log2 a = int (ilog2 n)" using True by (simp add: floor_log2_def n_def)
  from ilog2_bounds [OF n(1)] have b: "2 ^ ilog2 n \<le> n" "n < 2 ^ Suc (ilog2 n)" by simp_all
  have "(2::int) ^ ilog2 n \<le> \<lfloor>a\<rfloor>"
    using b(1) n(2) by (metis of_nat_le_iff of_nat_numeral of_nat_power)
  then have lo: "2 ^ ilog2 n \<le> a" by (simp add: le_floor_iff)
  have "\<lfloor>a\<rfloor> + 1 \<le> (2::int) ^ Suc (ilog2 n)"
    using b(2) n(2) by (metis Suc_leI of_nat_Suc of_nat_le_iff of_nat_numeral of_nat_power add.commute)
  then have "\<lfloor>a\<rfloor> < (2::int) ^ Suc (ilog2 n)" by linarith
  then have hi: "a < 2 ^ Suc (ilog2 n)" by (simp add: floor_less_iff)
  show ?thesis
    unfolding fe using lo hi pow2_nat [of "ilog2 n"] pow2_nat [of "Suc (ilog2 n)"]
    by (simp add: add.commute)
next
  case False
  define c where "c = \<lceil>1 / a\<rceil>"
  define m where "m = nat (c - 1)"
  have b: "1 < 1 / a" using False assms by (simp add: field_simps)
  then have c2: "2 \<le> c" unfolding c_def by (simp add: less_ceiling_iff Suc_le_eq)
  then have m: "0 < m" "int m = c - 1" by (simp_all add: m_def)
  have fe: "floor_log2 a = - int (Suc (ilog2 m))"
    using False by (simp add: floor_log2_def m_def c_def)
  from ilog2_bounds [OF m(1)] have bb: "2 ^ ilog2 m \<le> m" "m < 2 ^ Suc (ilog2 m)" by simp_all
  have "c \<le> (2::int) ^ Suc (ilog2 m)"
  proof -
    have "int m + 1 \<le> int (2 ^ Suc (ilog2 m))" using bb(2) by linarith
    then show ?thesis using m(2) by simp
  qed
  then have "1 / a \<le> 2 ^ Suc (ilog2 m)"
    unfolding c_def by (simp add: ceiling_le_iff)
  then have lo: "1 / 2 ^ Suc (ilog2 m) \<le> a"
    using assms by (simp add: field_simps)
  have "(2::int) ^ ilog2 m < c"
  proof -
    have "int (2 ^ ilog2 m) \<le> int m" using bb(1) by linarith
    then show ?thesis using m(2) by simp
  qed
  then have "2 ^ ilog2 m < 1 / a"
    unfolding c_def by (simp add: less_ceiling_iff)
  then have hi: "a < 1 / 2 ^ ilog2 m"
    using assms by (simp add: field_simps)
  have "floor_log2 a + 1 = - int (ilog2 m)" by (simp add: fe)
  then show ?thesis
    using lo hi pow2_neg_nat [of "Suc (ilog2 m)"] pow2_neg_nat [of "ilog2 m"]
    by (simp add: fe)
qed


lemma round_half_even_near: "\<bar>of_int (round_half_even x) - x\<bar> \<le> 1 / 2"
proof -
  have "of_int \<lfloor>x\<rfloor> \<le> x" "x < of_int \<lfloor>x\<rfloor> + 1" by linarith+
  then show ?thesis
    by (auto simp: round_half_even_def Let_def abs_le_iff)
qed

lemma round_half_even_unique:
  assumes "\<bar>x - of_int m\<bar> < 1 / 2"
  shows "round_half_even x = m"
proof -
  have fl: "of_int \<lfloor>x\<rfloor> \<le> x" "x < of_int \<lfloor>x\<rfloor> + 1" by linarith+
  have near: "x - of_int m < 1 / 2" "of_int m - x < 1 / 2"
    using assms by linarith+
  show ?thesis
  proof (cases "x - of_int \<lfloor>x\<rfloor> < 1 / 2")
    case True
    have "(of_int m :: rat) - 1 < of_int \<lfloor>x\<rfloor>" "(of_int \<lfloor>x\<rfloor> :: rat) < of_int m + 1"
      using near fl True by linarith+
    then have "(of_int (m - 1) :: rat) < of_int \<lfloor>x\<rfloor>" "(of_int \<lfloor>x\<rfloor> :: rat) < of_int (m + 1)"
      by simp_all
    then have "m - 1 < \<lfloor>x\<rfloor>" "\<lfloor>x\<rfloor> < m + 1"
      by (simp_all only: of_int_less_iff)
    then have "\<lfloor>x\<rfloor> = m" by linarith
    then show ?thesis using True by (simp add: round_half_even_def Let_def)
  next
    case False
    have "(of_int m :: rat) < of_int \<lfloor>x\<rfloor> + 2" "(of_int \<lfloor>x\<rfloor> :: rat) < of_int m"
      using near fl False by linarith+
    then have "(of_int m :: rat) < of_int (\<lfloor>x\<rfloor> + 2)" "(of_int \<lfloor>x\<rfloor> :: rat) < of_int m"
      by simp_all
    then have "m < \<lfloor>x\<rfloor> + 2" "\<lfloor>x\<rfloor> < m"
      by (simp_all only: of_int_less_iff)
    then have eq: "\<lfloor>x\<rfloor> + 1 = m" by linarith
    have "x - of_int \<lfloor>x\<rfloor> \<noteq> 1 / 2"
    proof
      assume "x - of_int \<lfloor>x\<rfloor> = 1 / 2"
      then have "x = of_int m - 1 / 2" using eq [symmetric] by simp
      then show False using near by simp
    qed
    then have "1 / 2 < x - of_int \<lfloor>x\<rfloor>" using False by linarith
    then show ?thesis using False eq by (simp add: round_half_even_def Let_def)
  qed
qed

lemma round_half_even_of_int: "round_half_even (of_int m) = m"
  by (rule round_half_even_unique) simp

text \<open>A positive rational in the normal range, with its binade known.\<close>

lemma round_double_normal:
  assumes "pow2 e \<le> q" "q < pow2 (e + 1)" "- 1022 \<le> e" "e \<le> 1022"
  shows "round_double q = Fin (of_int (round_half_even (q / pow2 (e - 52))) * pow2 (e - 52))"
proof -
  have pos: "0 < q" using assms(1) pow2_pos [of e] by linarith
  have fl: "floor_log2 \<bar>q\<bar> = e" using pos floor_log2_unique [OF assms(1,2)] by simp
  define u where "u = pow2 (e - 52)"
  define r where "r = of_int (round_half_even (q / u)) * u"
  have upos: "0 < u" by (simp add: u_def pow2_pos)
  have "\<bar>of_int (round_half_even (q / u)) - q / u\<bar> \<le> 1 / 2" by (rule round_half_even_near)
  then have "of_int (round_half_even (q / u)) \<le> q / u + 1 / 2" by linarith
  then have "r \<le> (q / u + 1 / 2) * u" unfolding r_def using upos by (simp add: mult_right_mono)
  also have "\<dots> = q + u / 2" using upos by (simp add: field_simps)
  also have "\<dots> < pow2 (e + 1) + pow2 (e + 1)"
  proof -
    have "u \<le> pow2 (e + 1)" unfolding u_def by (intro pow2_mono) simp
    then show ?thesis using assms(2) upos by linarith
  qed
  also have "\<dots> = pow2 (e + 2)" using pow2_Suc [of "e + 1"] by (simp add: add.commute add.left_commute)
  also have "\<dots> \<le> pow2 1024" using assms(4) by (intro pow2_mono) simp
  finally have "r < pow2 1024" .
  moreover have big: "(2::rat) ^ 1024 = pow2 1024" using pow2_nat [of 1024] by simp
  moreover have "max (floor_log2 \<bar>q\<bar>) (- 1022) = e" using fl assms(3) by simp
  moreover have "\<bar>q\<bar> = q" using pos by simp
  ultimately show ?thesis
    unfolding round_double_def Let_def big using pos
    by (simp add: u_def r_def not_le [symmetric])
qed


lemma round_double_zero: "round_double 0 = Fin 0"
  by (simp add: round_double_def)

lemma round_double_eval:
  assumes "pow2 e \<le> q" "q < pow2 (e + 1)" "- 1022 \<le> e" "e \<le> 1022"
    and "\<bar>q / pow2 (e - 52) - of_int m\<bar> < 1 / 2"
  shows "round_double q = Fin (of_int m * pow2 (e - 52))"
  using round_double_normal [OF assms(1-4)] round_half_even_unique [OF assms(5)] by simp

lemma int_to_float_exact:
  assumes "0 \<le> n" "n < 2 ^ 53"
  shows "int_to_float n = Inr (Fin (of_int n))"
proof (cases "n = 0")
  case True
  then show ?thesis by (simp add: int_to_float_def round_double_zero)
next
  case False
  define q :: rat where "q = of_int n"
  have pos: "0 < q" "1 \<le> q" using assms(1) False by (simp_all add: q_def)
  define e where "e = floor_log2 q"
  from floor_log2_bounds [OF pos(1)] have b: "pow2 e \<le> q" "q < pow2 (e + 1)"
    by (simp_all add: e_def)
  have "pow2 0 < pow2 (e + 1)" using pos(2) b(2) by (simp add: pow2_zero)
  then have lo: "0 \<le> e" by (simp add: pow2_less_iff)
  have "q < pow2 53" using assms(2) pow2_nat [of 53] unfolding q_def
    by (metis of_int_less_iff of_int_numeral of_int_power of_nat_numeral)
  then have "pow2 e < pow2 53" using b(1) by linarith
  then have hi: "e \<le> 52" by (simp add: pow2_less_iff)
  define k where "k = nat (52 - e)"
  have k: "e - 52 = - int k" using hi by (simp add: k_def)
  have u: "pow2 (e - 52) = 1 / 2 ^ k" unfolding k by (rule pow2_neg_nat)
  have "q / pow2 (e - 52) = of_int (n * 2 ^ k)" by (simp add: u q_def)
  then have "round_half_even (q / pow2 (e - 52)) = n * 2 ^ k"
    by (simp only: round_half_even_of_int)
  then have "round_double q = Fin q"
    using round_double_normal [OF b] lo hi by (simp add: u q_def)
  then show ?thesis by (simp add: int_to_float_def q_def)
qed

subsection \<open>The pixel coordinates\<close>


lemma to_pixel_eval:
  assumes "0 \<le> c" "c < 2 ^ 53" "int extent < 2 ^ 53"
    and "round_double (of_int c / 1000) = Fin r1"
    and "round_double (r1 * of_nat extent) = Fin r2" and "0 \<le> r2"
  shows "to_pixel (JInt c) extent = Inr \<lfloor>r2\<rfloor>"
  using assms int_to_float_exact [of c] int_to_float_exact [of "int extent"]
  by (simp add: to_pixel_def and_then_def)

lemma rd_200: "round_double (200 / 1000) = Fin (7205759403792794 * pow2 (- 55))"
  using round_double_eval [of "- 3" "200 / 1000" 7205759403792794]
  by (simp add: pow2_def)

lemma rd_100: "round_double (100 / 1000) = Fin (7205759403792794 * pow2 (- 56))"
  using round_double_eval [of "- 4" "100 / 1000" 7205759403792794]
  by (simp add: pow2_def)

lemma rd_400: "round_double (400 / 1000) = Fin (7205759403792794 * pow2 (- 54))"
  using round_double_eval [of "- 2" "400 / 1000" 7205759403792794]
  by (simp add: pow2_def)

lemma rd_300: "round_double (300 / 1000) = Fin (5404319552844595 * pow2 (- 54))"
  using round_double_eval [of "- 2" "300 / 1000" 5404319552844595]
  by (simp add: pow2_def)

lemma rm_200: "round_double (7205759403792794 * pow2 (- 55) * 2000) = Fin 400"
  using round_double_eval [of 8 "7205759403792794 * pow2 (- 55) * 2000" 7036874417766400]
  by (simp add: pow2_def)

lemma rm_100: "round_double (7205759403792794 * pow2 (- 56) * 1000) = Fin 100"
  using round_double_eval [of 6 "7205759403792794 * pow2 (- 56) * 1000" 7036874417766400]
  by (simp add: pow2_def)

lemma rm_400: "round_double (7205759403792794 * pow2 (- 54) * 2000) = Fin 800"
  using round_double_eval [of 9 "7205759403792794 * pow2 (- 54) * 2000" 7036874417766400]
  by (simp add: pow2_def)

lemma rm_300: "round_double (5404319552844595 * pow2 (- 54) * 1000) = Fin 300"
  using round_double_eval [of 8 "5404319552844595 * pow2 (- 54) * 1000" 5277655813324800]
  by (simp add: pow2_def)

lemma px_200: "to_pixel (JInt 200) 2000 = Inr 400"
  using to_pixel_eval [of 200 2000 "7205759403792794 * pow2 (- 55)" 400] rd_200 rm_200
  by simp

lemma px_100: "to_pixel (JInt 100) 1000 = Inr 100"
  using to_pixel_eval [of 100 1000 "7205759403792794 * pow2 (- 56)" 100] rd_100 rm_100
  by simp

lemma px_400: "to_pixel (JInt 400) 2000 = Inr 800"
  using to_pixel_eval [of 400 2000 "7205759403792794 * pow2 (- 54)" 800] rd_400 rm_400
  by simp

lemma px_300: "to_pixel (JInt 300) 1000 = Inr 300"
  using to_pixel_eval [of 300 1000 "5404319552844595 * pow2 (- 54)" 300] rd_300 rm_300
  by simp

lemma rd_290: "round_double (290 / 1000) = Fin (5224175567749775 * pow2 (- 54))"
  using round_double_eval [of "- 2" "290 / 1000" 5224175567749775]
  by (simp add: pow2_def)

lemma rm_290: "round_double (5224175567749775 * pow2 (- 54) * 100) = Fin (8162774324609023 * pow2 (- 48))"
  using round_double_eval [of 4 "5224175567749775 * pow2 (- 54) * 100" 8162774324609023]
  by (simp add: pow2_def)

lemma floor_rat_numeral: "\<lfloor>numeral a / numeral b :: rat\<rfloor> = numeral a div numeral b"
  by (metis floor_divide_of_int_eq of_int_numeral)

text \<open>The product can fall just below a whole number that the exact quotient reaches:
  \<open>290 / 1000.0 * 100\<close> is \<open>28.999999999999996\<close>, truncated to 28.\<close>

lemma px_290: "to_pixel (JInt 290) 100 = Inr 28"
  using to_pixel_eval [of 290 100 "5224175567749775 * pow2 (- 54)" "8162774324609023 * pow2 (- 48)"]
    rd_290 rm_290
  by (simp add: pow2_def floor_rat_numeral)

lemma box_example:
  "box_pixel_coords \<lparr>img_width = 2000, img_height = 1000, img_label = l\<rparr>
     [JInt 100, JInt 200, JInt 300, JInt 400] = Inr (400, 100, 800, 300)"
  by (simp add: box_pixel_coords_def and_then_def px_200 px_100 px_400 px_300)

section \<open>The claims\<close>

text \<open>
  C2. A submission whose normalized image sequence is empty short-circuits: both
  workflows return the message that there is nothing to process and record no request
  to the remote model (and no other effect), and \<open>process_documents_with_gemini\<close> itself
  returns without a request when it is handed no image.
\<close>

theorem empty_submission_short_circuits:
  assumes "collect_all_images w individual_files zip_file = []"
  shows "process_files_accident w individual_files zip_file request =
           ((''No valid images found to process'', None, 0), [])
       \<and> process_files_windshield w individual_files zip_file request =
           (error_result ''No valid images found to process'', [])
       \<and> process_documents_with_gemini w [] flow_type = (''No images to process'', [])"
  using assms
  by (simp add: process_files_accident_def process_files_windshield_def
      process_documents_with_gemini_def)

theorem empty_submission_short_circuits_witness:
  "collect_all_images (example_world ''{}'' (Inl JSONDecodeError))
     (FileList [Some (UploadedFile ''notes.txt''), None]) (Some (UploadedFile ''corrupt.zip'')) = []
   \<and> process_files_accident (example_world ''{}'' (Inl JSONDecodeError))
       (FileList [Some (UploadedFile ''notes.txt''), None]) (Some (UploadedFile ''corrupt.zip'')) None =
         ((''No valid images found to process'', None, 0), [])"
proof -
  have h: "collect_all_images (example_world ''{}'' (Inl JSONDecodeError))
     (FileList [Some (UploadedFile ''notes.txt''), None]) (Some (UploadedFile ''corrupt.zip'')) = []"
    by (simp add: collect_all_images_def process_uploaded_files_def process_zip_file_def
        add_file_def path_suffix_def path_name_def lower_def lower_char_def
        supported_image_formats_def supported_document_formats_def example_world_def Let_def)
  show ?thesis
    using empty_submission_short_circuits [OF h] h by simp
qed

text \<open>
  C3. A reply that \<open>json.loads\<close> rejects with \<open>JSONDecodeError\<close> comes back from
  \<open>parse_and_format_json\<close> as the raw text with no document and no validation summary.
  A reply on which \<open>json.loads\<close> raises anything else (the brackets of \<open>'[' * 100000\<close>
  raise \<open>RecursionError\<close>) is not caught by the handler of line 1079: the function
  raises. The windshield workflow catches every exception of \<open>json.loads\<close> and returns
  its error result, whose message carries the raw text.
\<close>

theorem parse_and_format_json_misses_exceptions:
  assumes "json_loads w raw = Inl e"
  shows "parse_and_format_json w raw =
           (if raw = [] \<or> starts_with raw ''Error'' \<or> e = JSONDecodeError
            then Inr (raw, [], []) else Inl e)
       \<and> (collect_all_images w individual_files zip_file \<noteq> [] \<and>
          process_documents_with_gemini w (collect_all_images w individual_files zip_file)
            ''windshield'' = (raw, calls) \<longrightarrow>
          process_files_windshield w individual_files zip_file request =
            (error_result (''Error parsing result: '' @ raw), calls))"
  using assms
  by (simp add: parse_and_format_json_def process_files_windshield_def Let_def)

theorem parse_and_format_json_misses_exceptions_witness:
  "json_loads (example_world ''[[[['' (Inl RecursionError)) ''[[[['' = Inl RecursionError
   \<and> parse_and_format_json (example_world ''[[[['' (Inl RecursionError)) ''[[[[''
       = Inl RecursionError
   \<and> process_files_windshield (example_world ''[[[['' (Inl RecursionError))
        (OneFile (UploadedFile ''a.png'')) None None =
        (error_result ''Error parsing result: [[[['',
         [ModelCall [''a.png''] WINDSHIELD_CLAIM_PROMPT])"
proof -
  let ?w = "example_world ''[[[['' (Inl RecursionError)"
  have h: "json_loads ?w ''[[[['' = Inl RecursionError"
    by (simp add: example_world_def)
  have imgs: "collect_all_images ?w (OneFile (UploadedFile ''a.png'')) None =
                [\<lparr>img_width = 2000, img_height = 1000, img_label = ''a.png''\<rparr>]"
    by (simp add: collect_all_images_def process_uploaded_files_def add_file_def path_suffix_def
        path_name_def lower_def lower_char_def supported_image_formats_def example_world_def
        Let_def)
  have call: "process_documents_with_gemini ?w
                [\<lparr>img_width = 2000, img_height = 1000, img_label = ''a.png''\<rparr>] ''windshield'' =
              (''[[[['', [ModelCall [''a.png''] WINDSHIELD_CLAIM_PROMPT])"
    by (simp add: process_documents_with_gemini_def example_world_def)
  show ?thesis
    using parse_and_format_json_misses_exceptions [OF h, of "OneFile (UploadedFile ''a.png'')" None
        "[ModelCall [''a.png''] WINDSHIELD_CLAIM_PROMPT]" None] h
    by (simp add: imgs call)
qed



text \<open>
  C5. \<open>identify_document_type\<close> is a function of the dictionary alone. It returns the
  label of the first of the five signatures whose two keys are both present (both
  \<open>report_header\<close> and \<open>first_party\<close> give the police report, whatever else is there),
  \<open>Unknown Document Type\<close> when no signature matches, and the same answer for every
  reordering of the dictionary's entries.
\<close>

theorem identify_document_type_signature_match:
  assumes "mset d' = mset d"
  shows "identify_document_type d' = identify_document_type d
       \<and> identify_document_type d = classify_spec d
       \<and> (has_key d ''report_header'' \<and> has_key d ''first_party''
            \<longrightarrow> identify_document_type d = ''Police Report (Form 1)'')
       \<and> (filter (matches d) signatures = []
            \<longrightarrow> identify_document_type d = ''Unknown Document Type'')"
proof -
  have "identify_document_type d' = identify_document_type d"
    unfolding identify_document_type_def by (simp only: has_key_mset [OF assms])
  moreover have "filter (matches d) signatures = []
      \<longrightarrow> identify_document_type d = ''Unknown Document Type''"
    by (simp add: identify_classify classify_spec_def)
  moreover have "has_key d ''report_header'' \<and> has_key d ''first_party''
      \<longrightarrow> identify_document_type d = ''Police Report (Form 1)''"
    by (simp add: identify_document_type_def)
  ultimately show ?thesis using identify_classify by blast
qed

theorem identify_document_type_signature_match_witness:
  "identify_document_type [(''first_party'', JObj []), (''extra'', JNull), (''report_header'', JObj [])]
     = ''Police Report (Form 1)''
   \<and> identify_document_type [(''report_header'', JObj []), (''extra'', JNull), (''first_party'', JObj [])]
     = ''Police Report (Form 1)''
   \<and> identify_document_type [(''policy_summary'', JObj []), (''issuing_company'', JObj [])]
     = ''Insurance Policy (Form 4)''
   \<and> identify_document_type [(''report_header'', JObj [])] = ''Unknown Document Type''"
proof -
  have p: "mset [(''first_party'', JObj []), (''extra'', JNull), (''report_header'', JObj [])]
         = mset [(''report_header'', JObj []), (''extra'', JNull), (''first_party'', JObj [])]"
    by simp
  have q: "mset [(''report_header'', JObj [])] = mset [(''report_header'', JObj [])]"
    by simp
  have r: "mset [(''policy_summary'', JObj []), (''issuing_company'', JObj [])]
         = mset [(''policy_summary'', JObj []), (''issuing_company'', JObj [])]"
    by simp
  show ?thesis
    using identify_document_type_signature_match [OF p]
      identify_document_type_signature_match [OF q]
      identify_document_type_signature_match [OF r]
    by (simp add: has_key_def matches_def signatures_def classify_spec_def)
qed

text \<open>
  C6. The image sequence of a submission is exactly the pages of its supported and
  readable items: those of the loose files in submission order, then those of the files
  of the archive in the order of the walk, a PDF giving its pages in document order. An
  item that is unsupported or unreadable adds nothing and takes nothing away: the
  loose files give the same images with it as without it.
\<close>

theorem image_sequence_is_usable_pages_in_order:
  "collect_all_images w individual_files zip_file = normalized_sequence w individual_files zip_file
   \<and> (\<not> usable w (name f) \<longrightarrow>
        process_uploaded_files w (FileList (before @ [Some f] @ after)) =
        process_uploaded_files w (FileList (before @ after)))"
proof -
  have "\<not> usable w (name f) \<Longrightarrow>
        pages_of_items w (List.map_filter (map_option name) (before @ [Some f] @ after)) =
        pages_of_items w (List.map_filter (map_option name) (before @ after))"
    by (simp add: pages_of_items_def map_filter_def)
  then show ?thesis
    by (simp add: collect_all_images_pages process_uploaded_files_pages)
qed

theorem image_sequence_is_usable_pages_in_order_witness:
  "\<not> usable (example_world ''{}'' (Inl JSONDecodeError)) ''corrupt.pdf''
   \<and> process_uploaded_files (example_world ''{}'' (Inl JSONDecodeError))
        (FileList [Some (UploadedFile ''good.png''), Some (UploadedFile ''corrupt.pdf''),
                   Some (UploadedFile ''good2.png'')]) =
       process_uploaded_files (example_world ''{}'' (Inl JSONDecodeError))
        (FileList [Some (UploadedFile ''good.png''), Some (UploadedFile ''good2.png'')])
   \<and> map img_label
        (collect_all_images (example_world ''{}'' (Inl JSONDecodeError))
           (FileList [Some (UploadedFile ''a.png''), Some (UploadedFile ''a.txt''),
                      Some (UploadedFile ''b.pdf'')])
           (Some (UploadedFile ''docs.zip''))) =
       [''a.png'', ''b.pdf#1'', ''b.pdf#2'', ''/tmp/x/c.jpg'', ''/tmp/x/sub/d.PDF#1'',
        ''/tmp/x/sub/d.PDF#2'']"
proof -
  let ?w = "example_world ''{}'' (Inl JSONDecodeError)"
  have u: "\<not> usable ?w (name (UploadedFile ''corrupt.pdf''))"
    by (simp add: usable_def item_pages_def is_image_path_def is_pdf_path_def pdf_page_images_def
        path_suffix_def path_name_def lower_def lower_char_def supported_image_formats_def
        supported_document_formats_def example_world_def Let_def)
  have s: "map img_label
        (normalized_sequence ?w
           (FileList [Some (UploadedFile ''a.png''), Some (UploadedFile ''a.txt''),
                      Some (UploadedFile ''b.pdf'')])
           (Some (UploadedFile ''docs.zip''))) =
       [''a.png'', ''b.pdf#1'', ''b.pdf#2'', ''/tmp/x/c.jpg'', ''/tmp/x/sub/d.PDF#1'',
        ''/tmp/x/sub/d.PDF#2'']"
    by (simp add: normalized_sequence_def pages_of_items_def archive_paths_def usable_def
        item_pages_def is_image_path_def is_pdf_path_def pdf_page_images_def
        path_suffix_def path_name_def lower_def lower_char_def supported_image_formats_def
        supported_document_formats_def example_world_def Let_def)
  show ?thesis
    using u s
      image_sequence_is_usable_pages_in_order
        [of ?w "FileList [Some (UploadedFile ''a.png''), Some (UploadedFile ''a.txt''),
                          Some (UploadedFile ''b.pdf'')]"
            "Some (UploadedFile ''docs.zip'')" "UploadedFile ''corrupt.pdf''"
            "[Some (UploadedFile ''good.png'')]" "[Some (UploadedFile ''good2.png'')]"]
    by simp
qed

text \<open>
  C8. When the stored reply holds extracted data with at least one of the five known
  sections, navigation returns as many sections as are present and an index inside
  \<open>[0, sectionCount - 1]\<close>: the requested index (one back for \<open>prev\<close>, one forward for
  \<open>next\<close>, the current one otherwise) clamped to the nearest valid index. So \<open>prev\<close> at
  index 0 stays at 0 and \<open>next\<close> at the last index stays at the last index.
\<close>

theorem navigation_index_clamped:
  assumes "extracted_data_json \<noteq> []"
    and "json_loads w extracted_data_json = Inr (JObj parsed)"
    and "map_of parsed ''extractedData'' = Some (JObj extracted)"
    and "0 < section_count extracted"
  shows "\<exists>html final_index total.
           navigate_extraction_tiles w extracted_data_json direction current_index =
             (html, final_index, total)
         \<and> total = section_count extracted
         \<and> 0 \<le> final_index \<and> final_index \<le> int total - 1
         \<and> final_index =
             clamp_index total
               (if direction = ''prev'' then current_index - 1
                else if direction = ''next'' then current_index + 1
                else current_index)
         \<and> (direction = ''prev'' \<and> current_index = 0 \<longrightarrow> final_index = 0)
         \<and> (direction = ''next'' \<and> current_index = int total - 1
              \<longrightarrow> final_index = int total - 1)"
proof -
  let ?n = "section_count extracted"
  define new_index where
    "new_index = (if direction = ''prev'' then max 0 (current_index - 1)
                  else if direction = ''next'' then min (int ?n - 1) (current_index + 1)
                  else current_index)"
  have nav: "navigate_extraction_tiles w extracted_data_json direction current_index =
             create_extraction_tiles (JObj extracted) new_index"
    using assms(1,2,3)
    by (simp add: navigate_extraction_tiles_def and_then_def count_sections_obj
        section_count_def new_index_def Let_def)
  obtain html where
    tiles: "create_extraction_tiles (JObj extracted) new_index =
              (html, clamp_index ?n new_index, ?n)"
    using create_extraction_tiles_obj [OF assms(4), of new_index]
    by (cases "create_extraction_tiles (JObj extracted) new_index") auto
  have "clamp_index ?n new_index =
          clamp_index ?n (if direction = ''prev'' then current_index - 1
                          else if direction = ''next'' then current_index + 1
                          else current_index)"
    using assms(4) by (auto simp: clamp_index_def new_index_def)
  moreover have "0 \<le> clamp_index ?n new_index \<and> clamp_index ?n new_index \<le> int ?n - 1"
    using assms(4) by (auto simp: clamp_index_def)
  moreover have "direction = ''prev'' \<and> current_index = 0 \<longrightarrow> clamp_index ?n new_index = 0"
    using assms(4) by (auto simp: clamp_index_def new_index_def)
  moreover have "direction = ''next'' \<and> current_index = int ?n - 1 \<longrightarrow>
                 clamp_index ?n new_index = int ?n - 1"
    using assms(4) by (auto simp: clamp_index_def new_index_def)
  ultimately show ?thesis
    using nav tiles by auto
qed

theorem navigation_index_clamped_witness:
  "section_count [(''civilId'', JObj []), (''repairOrder'', JObj [])] = 2
   \<and> snd (navigate_extraction_tiles
        (example_world ''r''
           (Inr (JObj [(''extractedData'', JObj [(''civilId'', JObj []), (''repairOrder'', JObj [])])])))
        ''r'' ''next'' 1) = (1, 2)
   \<and> snd (navigate_extraction_tiles
        (example_world ''r''
           (Inr (JObj [(''extractedData'', JObj [(''civilId'', JObj []), (''repairOrder'', JObj [])])])))
        ''r'' ''prev'' 0) = (0, 2)
   \<and> snd (navigate_extraction_tiles
        (example_world ''r''
           (Inr (JObj [(''extractedData'', JObj [(''civilId'', JObj []), (''repairOrder'', JObj [])])])))
        ''r'' ''stay'' 7) = (1, 2)"
proof -
  let ?e = "[(''civilId'', JObj []), (''repairOrder'', JObj [])]"
  let ?p = "[(''extractedData'', JObj ?e)]"
  let ?w = "example_world ''r'' (Inr (JObj ?p))"
  have a: "''r'' \<noteq> []" by simp
  have b: "json_loads ?w ''r'' = Inr (JObj ?p)" by (simp add: example_world_def)
  have c: "map_of ?p ''extractedData'' = Some (JObj ?e)" by simp
  have n: "section_count ?e = 2" by (simp add: section_count_def section_keys_def has_key_def)
  then have d: "0 < section_count ?e" by simp
  show ?thesis
    using navigation_index_clamped [OF a b c d, of "''next''" 1]
      navigation_index_clamped [OF a b c d, of "''prev''" 0]
      navigation_index_clamped [OF a b c d, of "''stay''" 7]
    by (auto simp: n clamp_index_def)
qed



text \<open>
  C10. The tile renderer answers every request. For a mapping with none of the five
  known section keys and any index, \<open>create_extraction_tiles\<close> returns the no-data
  placeholder with index 0 and section count 0. \<open>navigate_extraction_tiles\<close> returns a
  placeholder with index 0 and count 0 for empty stored data, and a placeholder with
  the index it was given and count 0 for stored data that does not parse, whatever
  exception \<open>json.loads\<close> raises on it.
\<close>

theorem tiles_placeholder_without_sections:
  "((\<forall>k \<in> set section_keys. \<not> has_key d k) \<longrightarrow>
      create_extraction_tiles (JObj d) current_index =
        (Plain ''<p>No extraction data available</p>'', 0, 0))
   \<and> navigate_extraction_tiles w [] direction current_index =
        (Plain ''<p>No data available</p>'', 0, 0)
   \<and> (stored \<noteq> [] \<and> json_loads w stored = Inl e \<longrightarrow>
        navigate_extraction_tiles w stored direction current_index =
          (Plain (''<p>Error navigating: '' @ exc_str e @ ''</p>''),
           current_index, 0))"
  by (simp add: create_extraction_tiles_def section_mapping_def section_keys_def has_key_def
      navigate_extraction_tiles_def)

theorem tiles_placeholder_without_sections_witness:
  "filter (has_key [(''somethingElse'', JInt 1)]) section_keys = []
   \<and> create_extraction_tiles (JObj [(''somethingElse'', JInt 1)]) 5 =
        (Plain ''<p>No extraction data available</p>'', 0, 0)
   \<and> json_loads (example_world ''{}'' (Inl JSONDecodeError)) ''not json'' = Inl JSONDecodeError
   \<and> navigate_extraction_tiles (example_world ''{}'' (Inl JSONDecodeError)) ''not json'' ''next'' 5 =
        (Plain ''<p>Error navigating: JSONDecodeError</p>'', 5, 0)"
proof -
  have a: "\<forall>k \<in> set section_keys. \<not> has_key [(''somethingElse'', JInt 1)] k"
    by (simp add: section_keys_def has_key_def)
  have b: "json_loads (example_world ''{}'' (Inl JSONDecodeError)) ''not json'' = Inl JSONDecodeError"
    by (simp add: example_world_def)
  have c: "filter (has_key [(''somethingElse'', JInt 1)]) section_keys = []"
    by (simp add: section_keys_def has_key_def)
  show ?thesis
    using a b c
      tiles_placeholder_without_sections
        [of "[(''somethingElse'', JInt 1)]" 5 "example_world ''{}'' (Inl JSONDecodeError)"
            "''next''" "''not json''" JSONDecodeError]
    by simp
qed

text \<open>
  C1. The guard of line 936 has no lower bound. For a box of four elements and the
  image index \<open>-1\<close>, with at least one image submitted, the overlay is drawn on the last
  image: the index is not treated as absent. So a submission of the single image
  \<open>a.png\<close> whose reply locates the damage at image \<open>-1\<close> gets that image back with
  the box drawn on it.
\<close>

theorem damage_overlay_negative_index_resolves:
  "damage_image_of w (all_images @ [img])
     (JObj [(''photographicEvidence'',
        JObj [(''damageLocation'',
          JObj [(''imageIndex'', JInt (- 1)), (''box_2d'', JArr [ymin, xmin, ymax, xmax])])])])
   = Inr (Some (draw_bounding_box_on_image w img [ymin, xmin, ymax, xmax]))
   \<and> damage_image (fst (process_files_windshield
      (example_world ''r''
         (Inr (JObj [(''extractedData'',
            JObj [(''photographicEvidence'',
              JObj [(''damageLocation'',
                JObj [(''imageIndex'', JInt (- 1)),
                      (''box_2d'', JArr [JInt 100, JInt 200, JInt 300, JInt 400])])])])])))
      (OneFile (UploadedFile ''a.png'')) None None)) =
     Some \<lparr>img_width = 2000, img_height = 1000, img_label = ''a.png with box''\<rparr>"
proof -
  let ?j = "JObj [(''extractedData'',
            JObj [(''photographicEvidence'',
              JObj [(''damageLocation'',
                JObj [(''imageIndex'', JInt (- 1)),
                      (''box_2d'', JArr [JInt 100, JInt 200, JInt 300, JInt 400])])])])]"
  let ?w = "example_world ''r'' (Inr ?j)"
  let ?img = "\<lparr>img_width = 2000, img_height = 1000, img_label = ''a.png''\<rparr>"
  have block: "damage_image_of w (all_images @ [img])
     (JObj [(''photographicEvidence'',
        JObj [(''damageLocation'',
          JObj [(''imageIndex'', JInt (- 1)), (''box_2d'', JArr [ymin, xmin, ymax, xmax])])])])
   = Inr (Some (draw_bounding_box_on_image w img [ymin, xmin, ymax, xmax]))"
    by (simp add: damage_image_of_def damage_overlay_def and_then_def list_index_int_def)
  have imgs: "collect_all_images ?w (OneFile (UploadedFile ''a.png'')) None = [?img]"
    by (simp add: collect_all_images_def process_uploaded_files_def add_file_def path_suffix_def
        path_name_def lower_def lower_char_def supported_image_formats_def example_world_def
        Let_def)
  have call: "process_documents_with_gemini ?w [?img] ''windshield'' =
              (''r'', [ModelCall [''a.png''] WINDSHIELD_CLAIM_PROMPT])"
    by (simp add: process_documents_with_gemini_def example_world_def)
  have parsed: "json_loads ?w ''r'' = Inr ?j"
    by (simp add: example_world_def)
  have draw: "draw_bounding_box_on_image ?w ?img [JInt 100, JInt 200, JInt 300, JInt 400] =
              \<lparr>img_width = 2000, img_height = 1000, img_label = ''a.png with box''\<rparr>"
    by (simp add: draw_bounding_box_on_image_def box_example example_world_def)
  have dmg: "damage_image_of ?w [?img]
               (JObj [(''photographicEvidence'',
                  JObj [(''damageLocation'',
                    JObj [(''imageIndex'', JInt (- 1)),
                          (''box_2d'', JArr [JInt 100, JInt 200, JInt 300, JInt 400])])])]) =
             Inr (Some \<lparr>img_width = 2000, img_height = 1000, img_label = ''a.png with box''\<rparr>)"
    using damage_overlay_int_index [of "[JInt 100, JInt 200, JInt 300, JInt 400]" ?w "[?img]" "- 1"]
    by (simp add: damage_image_of_def and_then_def draw)
  have "damage_image (fst (process_files_windshield ?w (OneFile (UploadedFile ''a.png'')) None None)) =
        Some \<lparr>img_width = 2000, img_height = 1000, img_label = ''a.png with box''\<rparr>"
    by (simp add: process_files_windshield_def imgs call parsed render_windshield_def
        extract_sections_def and_then_def dmg split: prod.splits)
  then show ?thesis using block by blast
qed



end
